theory Spec2Isabelle
  imports Main "HOL-Library.AList" "HOL-Library.Multiset"
begin

section \<open>Front matter data source: data model\<close>

text \<open>
  The data source turns the front matter of Markdown documents into a data frame
  (fields and records). JavaScript strings are modelled as \<open>string\<close>; the code only
  compares code units, takes prefixes and splits at \<open>/\<close>, which is the same on a list of
  characters. A JavaScript object is an association list in insertion order; a
  well-formed object holds every key once (\<open>wf_object\<close>). JavaScript enumerates
  integer-like keys first; no property proved here depends on the order of the keys.

  A front matter value is a tagged value. The payload of a number or a date is an
  integer: the data source never computes with it. The optional \<open>typeConfig\<close> of a field
  is left out: \<open>detectSchema\<close> copies it with the rest of the field. The queries are
  asynchronous in the source and await nothing but their own results, so they are
  modelled as functions of the application state.
\<close>

datatype dvalue =
    VNull
  | VUndefined
  | VString string
  | VNumber int
  | VBoolean bool
  | VDate int
  | VList "dvalue list"
  | VObject "(string \<times> dvalue) list"

type_synonym object = "(string \<times> dvalue) list"

definition wf_object :: "object \<Rightarrow> bool" where
  "wf_object ob = distinct (map fst ob)"

datatype DataFieldType = String | Number | Boolean | Date | Unknown

record DataField =
  name :: string
  type :: DataFieldType
  repeated :: bool
  "identifier" :: bool
  derived :: bool

record DataRecord =
  id_r :: string
  "values" :: object

record DataFrame =
  fields_df :: "DataField list"
  records :: "DataRecord list"

text \<open>The host's types: a file handle, the cached metadata of a file, the cache.\<close>

record TFile =
  path :: string
  basename :: string

record CachedMetadata =
  frontmatter :: "object option"

type_synonym MetadataCache = "TFile \<rightharpoonup> CachedMetadata"

record ProjectDefinition =
  path :: string
  recursive :: bool

text \<open>
  The application object, as far as the data source reads it: the vault's listing of
  Markdown files (\<open>app.vault.getMarkdownFiles()\<close>) and the metadata cache
  (\<open>app.metadataCache.getFileCache(file)\<close>, which returns null for a file that has
  no cache entry).
\<close>

record App =
  getMarkdownFiles :: "TFile list"
  metadataCache :: MetadataCache

record FrontMatterDataSource =
  app :: App
  project :: ProjectDefinition

section \<open>String and array primitives of the host language\<close>

definition startsWith :: "string \<Rightarrow> string \<Rightarrow> bool" where
  "startsWith s pre = (take (length pre) s = pre)"

text \<open>\<open>s.split(c)\<close> for a one-character separator: never empty, \<open>"".split("/") = [""]\<close>.\<close>

fun split :: "char \<Rightarrow> string \<Rightarrow> string list" where
  "split c [] = [[]]"
| "split c (x # xs) =
     (if x = c then [] # split c xs
      else (x # hd (split c xs)) # tl (split c xs))"

fun join :: "string \<Rightarrow> string list \<Rightarrow> string" where
  "join sep [] = []"
| "join sep [x] = x"
| "join sep (x # y # ys) = x @ sep @ join sep (y # ys)"

section \<open>Helpers imported by the data source\<close>

text \<open>
  Modelled from the spec: \<open>notEmpty\<close> (imported from the helpers module, whose source is
  not among the files verified here). The record extractor filters out entries whose value is empty:
  null, undefined, the empty string, the empty list.
\<close>

fun notEmpty :: "dvalue \<Rightarrow> bool" where
  "notEmpty VNull = False"
| "notEmpty VUndefined = False"
| "notEmpty (VString s) = (s \<noteq> [])"
| "notEmpty (VList xs) = (xs \<noteq> [])"
| "notEmpty v = True"

text \<open>
  Modelled from the spec: \<open>standardizeRecord\<close> (imported from the front matter helpers,
  whose source is not among the files verified here). The record's id is derived from the document path, which the
  caller passes first; the standardization pass canonicalizes each value according to
  its type. Which values it rewrites is not specified, so the canonicalization of one
  value is the parameter \<open>canon\<close>.
\<close>

definition standardizeRecord :: "(dvalue \<Rightarrow> dvalue) \<Rightarrow> string \<Rightarrow> object \<Rightarrow> DataRecord" where
  "standardizeRecord canon i vals = \<lparr>id_r = i, values = map (\<lambda>(k, v). (k, canon v)) vals\<rparr>"

text \<open>
  Modelled from the spec: \<open>detectFields\<close> (imported from the data source helpers,
  whose source is not among the files verified here). The fields are the union of the observed keys, here in the order
  in which a scan of the records first meets them. A key's consensus type is the most
  frequent type among its observations that are not Unknown; a tie gives String; a key
  with no such observation is Unknown. One list-valued observation makes the field
  repeated. The detector itself marks no field as derived or as identifier. The value
  classifier is the parameter \<open>classify\<close>.
\<close>

definition observedKeys :: "DataRecord list \<Rightarrow> string list" where
  "observedKeys recs = rev (remdups (rev (concat (map (\<lambda>r. map fst (values r)) recs))))"

definition observations :: "DataRecord list \<Rightarrow> string \<Rightarrow> dvalue list" where
  "observations recs k = List.map_filter (\<lambda>r. map_of (values r) k) recs"

definition consensus :: "DataFieldType list \<Rightarrow> DataFieldType" where
  "consensus ts =
     (let cands = [String, Number, Boolean, Date];
          best = fold max (map (count_list ts) cands) 0;
          winners = filter (\<lambda>t. count_list ts t = best) cands
      in if best = 0 then Unknown
         else (case winners of [t] \<Rightarrow> t | _ \<Rightarrow> String))"

fun isList :: "dvalue \<Rightarrow> bool" where
  "isList (VList xs) = True"
| "isList v = False"

definition detectField :: "(dvalue \<Rightarrow> DataFieldType) \<Rightarrow> DataRecord list \<Rightarrow> string \<Rightarrow> DataField" where
  "detectField classify recs k =
     \<lparr>name = k,
      type = consensus (map classify (observations recs k)),
      repeated = list_ex isList (observations recs k),
      identifier = False,
      derived = False\<rparr>"

definition detectFields :: "(dvalue \<Rightarrow> DataFieldType) \<Rightarrow> DataRecord list \<Rightarrow> DataField list" where
  "detectFields classify recs = map (detectField classify recs) (observedKeys recs)"

text \<open>
  Modelled from the spec: \<open>stringFallback\<close> (imported from the data source helpers,
  whose source is not among the files verified here). For each record, a value stored under the field that is present
  but not a plain string is replaced by a string rendering; an absent value stays
  absent. The rendering is the parameter \<open>render\<close>.
\<close>

definition fallbackRecord :: "(dvalue \<Rightarrow> string) \<Rightarrow> string \<Rightarrow> DataRecord \<Rightarrow> DataRecord" where
  "fallbackRecord render field r =
     (case map_of (values r) field of
        None \<Rightarrow> r
      | Some (VString s) \<Rightarrow> r
      | Some v \<Rightarrow> r\<lparr>values := AList.update field (VString (render v)) (values r)\<rparr>)"

definition stringFallback :: "(dvalue \<Rightarrow> string) \<Rightarrow> DataRecord list \<Rightarrow> string \<Rightarrow> DataRecord list" where
  "stringFallback render recs field = map (fallbackRecord render field) recs"

text \<open>
  Sample instances of the three parameters, for evaluating the model on concrete
  documents: a classifier that reads the tag of a value, the canonicalization that
  changes nothing, and a rendering of the scalar values.
\<close>

fun classifyTag :: "dvalue \<Rightarrow> DataFieldType" where
  "classifyTag (VString s) = String"
| "classifyTag (VNumber n) = Number"
| "classifyTag (VBoolean b) = Boolean"
| "classifyTag (VDate d) = Date"
| "classifyTag v = Unknown"

definition canonNone :: "dvalue \<Rightarrow> dvalue" where
  "canonNone v = v"

fun renderTag :: "dvalue \<Rightarrow> string" where
  "renderTag (VString s) = s"
| "renderTag (VBoolean b) = (if b then ''true'' else ''false'')"
| "renderTag VNull = ''null''"
| "renderTag v = ''?''"





section \<open>The data source\<close>

subsection \<open>Source selector\<close>

definition includes_p :: "FrontMatterDataSource \<Rightarrow> string \<Rightarrow> bool" where
  "includes_p this p =
     (let trimmedPath =
            (if startsWith (ProjectDefinition.path (project this)) ''/''
             then drop 1 (ProjectDefinition.path (project this))
             else ProjectDefinition.path (project this))
      in if \<not> startsWith p trimmedPath then False
         else if \<not> recursive (project this) then
           (let pathElements = butlast (split CHR ''/'' p);
                projectPathElements = filter (\<lambda>el. el \<noteq> []) (split CHR ''/'' trimmedPath)
            in join ''/'' pathElements = join ''/'' projectPathElements)
         else True)"

subsection \<open>Record extraction\<close>

text \<open>
  The loop of \<open>parseRecords\<close> pushes one record for each file whose cache lookup is
  not null, in the order of the files; \<open>parseRecord\<close> is the body of the loop inside
  the test \<open>if (cache)\<close>. The rest pattern \<open>{ position, ...values }\<close> drops
  the key \<open>position\<close>; \<open>Object.entries\<close> and \<open>Object.fromEntries\<close> are the identity on
  the association list of a well-formed object; the two assignments update in place
  or append.
\<close>

definition parseRecord :: "(dvalue \<Rightarrow> dvalue) \<Rightarrow> TFile \<Rightarrow> CachedMetadata \<Rightarrow> DataRecord" where
  "parseRecord canon file c =
     (let vals = AList.delete ''position''
                   (case frontmatter c of None \<Rightarrow> [] | Some fm \<Rightarrow> fm);
          filteredValues = filter (\<lambda>(k, v). notEmpty v) vals;
          filteredValues = AList.update ''path'' (VString (TFile.path file)) filteredValues;
          filteredValues = AList.update ''name'' (VString (basename file)) filteredValues
      in standardizeRecord canon (TFile.path file) filteredValues)"

fun parseRecords :: "(dvalue \<Rightarrow> dvalue) \<Rightarrow> TFile list \<Rightarrow> MetadataCache \<Rightarrow> DataRecord list" where
  "parseRecords canon [] cache = []"
| "parseRecords canon (file # files) cache =
     (case cache file of
        None \<Rightarrow> parseRecords canon files cache
      | Some c \<Rightarrow> parseRecord canon file c # parseRecords canon files cache)"

subsection \<open>Schema detection\<close>

definition detectSchema :: "(dvalue \<Rightarrow> DataFieldType) \<Rightarrow> DataRecord list \<Rightarrow> DataField list" where
  "detectSchema classify recs =
     map (\<lambda>field. if name field = ''path'' then field\<lparr>identifier := True\<rparr> else field)
       (map (\<lambda>field. if name field = ''name'' \<or> name field = ''path''
                     then field\<lparr>derived := True\<rparr> else field)
          (detectFields classify recs))"

subsection \<open>Queries\<close>

definition queryFiles ::
  "(dvalue \<Rightarrow> dvalue) \<Rightarrow> (dvalue \<Rightarrow> DataFieldType) \<Rightarrow> (dvalue \<Rightarrow> string) \<Rightarrow>
   FrontMatterDataSource \<Rightarrow> TFile list \<Rightarrow> DataFrame" where
  "queryFiles canon classify render this files =
     (let recs = parseRecords canon files (metadataCache (app this));
          flds = detectSchema classify recs;
          recs = foldl (stringFallback render) recs
                   (map name (filter (\<lambda>field. type field = String) flds))
      in \<lparr>fields_df = flds, records = recs\<rparr>)"

definition queryOne ::
  "(dvalue \<Rightarrow> dvalue) \<Rightarrow> (dvalue \<Rightarrow> DataFieldType) \<Rightarrow> (dvalue \<Rightarrow> string) \<Rightarrow>
   FrontMatterDataSource \<Rightarrow> TFile \<Rightarrow> DataFrame" where
  "queryOne canon classify render this file = queryFiles canon classify render this [file]"

definition queryAll ::
  "(dvalue \<Rightarrow> dvalue) \<Rightarrow> (dvalue \<Rightarrow> DataFieldType) \<Rightarrow> (dvalue \<Rightarrow> string) \<Rightarrow>
   FrontMatterDataSource \<Rightarrow> DataFrame" where
  "queryAll canon classify render this =
     (let files = filter (\<lambda>file. includes_p this (TFile.path file))
                    (getMarkdownFiles (app this))
      in queryFiles canon classify render this files)"

text \<open>Two collections rooted at \<open>Projects\<close> and two rooted at \<open>Note\<close>, over an empty vault.\<close>

definition emptyApp :: App where
  "emptyApp = \<lparr>getMarkdownFiles = [], metadataCache = Map.empty\<rparr>"

definition projectsFlat :: FrontMatterDataSource where
  "projectsFlat = \<lparr>app = emptyApp, project = \<lparr>path = ''Projects'', recursive = False\<rparr>\<rparr>"

definition projectsDeep :: FrontMatterDataSource where
  "projectsDeep = \<lparr>app = emptyApp, project = \<lparr>path = ''Projects'', recursive = True\<rparr>\<rparr>"

definition noteFlat :: FrontMatterDataSource where
  "noteFlat = \<lparr>app = emptyApp, project = \<lparr>path = ''Note'', recursive = False\<rparr>\<rparr>"

definition noteDeep :: FrontMatterDataSource where
  "noteDeep = \<lparr>app = emptyApp, project = \<lparr>path = ''Note'', recursive = True\<rparr>\<rparr>"

section \<open>Auxiliary notions for the proofs\<close>

text \<open>
  \<open>trimmedPath\<close> is the collection root as \<open>includes\<close> compares it, without
  one leading slash; \<open>schemaField\<close> is what the two passes of \<open>detectSchema\<close> do
  to one field;
  \<open>plainAt k r\<close> says that the record \<open>r\<close> holds no value under \<open>k\<close> or a plain
  string.
\<close>

definition trimmedPath :: "FrontMatterDataSource \<Rightarrow> string" where
  "trimmedPath this =
     (if startsWith (ProjectDefinition.path (project this)) ''/''
      then drop 1 (ProjectDefinition.path (project this))
      else ProjectDefinition.path (project this))"

definition schemaField :: "DataField \<Rightarrow> DataField" where
  "schemaField f = (let g = (if name f = ''name'' \<or> name f = ''path'' then f\<lparr>derived := True\<rparr> else f)
     in if name g = ''path'' then g\<lparr>identifier := True\<rparr> else g)"

definition plainAt :: "string \<Rightarrow> DataRecord \<Rightarrow> bool" where
  "plainAt k r = (case map_of (values r) k of None \<Rightarrow> True | Some (VString s) \<Rightarrow> True | Some v \<Rightarrow> False)"

section \<open>Sample documents\<close>

text \<open>
  Four documents under \<open>Projects\<close>. \<open>fileA\<close> has front matter with the bookkeeping
  key, an empty string and a null \<open>name\<close>; \<open>fileB\<close> has a boolean \<open>status\<close> and a
  \<open>path\<close> key of its own; \<open>fileC\<close> has no cache entry; \<open>fileD\<close> has a cache entry
  without front matter. \<open>recordA\<close> and \<open>recordB\<close> are the records of the first two.
  \<open>fileJ\<close> is a daily note, named after its date, in a cache of its own.
\<close>

definition fileA :: TFile where
  "fileA = \<lparr>TFile.path = ''Projects/a.md'', basename = ''a''\<rparr>"

definition fileB :: TFile where
  "fileB = \<lparr>TFile.path = ''Projects/Sub/b.md'', basename = ''b''\<rparr>"

definition fileC :: TFile where
  "fileC = \<lparr>TFile.path = ''Projects/c.md'', basename = ''c''\<rparr>"

definition fileD :: TFile where
  "fileD = \<lparr>TFile.path = ''Projects/d.md'', basename = ''d''\<rparr>"

definition metaA :: CachedMetadata where
  "metaA = \<lparr>frontmatter = Some [(''position'', VObject []), (''status'', VString ''todo''),
      (''cost'', VNumber 3), (''note'', VString []), (''name'', VNull)]\<rparr>"

definition metaB :: CachedMetadata where
  "metaB = \<lparr>frontmatter = Some [(''status'', VBoolean True), (''path'', VString ''elsewhere'')]\<rparr>"

definition metaD :: CachedMetadata where
  "metaD = \<lparr>frontmatter = None\<rparr>"

definition sampleCache :: MetadataCache where
  "sampleCache = [fileA \<mapsto> metaA, fileB \<mapsto> metaB, fileD \<mapsto> metaD]"

definition sampleSource :: FrontMatterDataSource where
  "sampleSource =
     \<lparr>app = \<lparr>getMarkdownFiles = [fileA, fileB, fileC, fileD], metadataCache = sampleCache\<rparr>,
      project = \<lparr>path = ''/Projects'', recursive = True\<rparr>\<rparr>"

definition recordA :: DataRecord where
  "recordA = \<lparr>id_r = ''Projects/a.md'',
      values = [(''status'', VString ''todo''), (''cost'', VNumber 3),
                (''path'', VString ''Projects/a.md''), (''name'', VString ''a'')]\<rparr>"

definition recordB :: DataRecord where
  "recordB = \<lparr>id_r = ''Projects/Sub/b.md'',
      values = [(''status'', VBoolean True), (''path'', VString ''Projects/Sub/b.md''),
                (''name'', VString ''b'')]\<rparr>"



lemmas sample_defs = fileA_def fileB_def fileC_def fileD_def metaA_def metaB_def metaD_def
  sampleCache_def sampleSource_def recordA_def recordB_def canonNone_def

section \<open>Facts about the source selector\<close>

lemma startsWith_append: "startsWith (pre @ s) pre"
  by (simp add: startsWith_def)

lemma includes_p_recursive:
  "recursive (project this) \<Longrightarrow> includes_p this p = startsWith p (trimmedPath this)"
  by (simp add: includes_p_def trimmedPath_def Let_def)

lemma includes_p_flat:
  "\<not> recursive (project this) \<Longrightarrow>
   includes_p this p =
     (startsWith p (trimmedPath this)
      \<and> join ''/'' (butlast (split CHR ''/'' p)) =
          join ''/'' (filter (\<lambda>el. el \<noteq> []) (split CHR ''/'' (trimmedPath this))))"
  by (simp add: includes_p_def trimmedPath_def Let_def)

section \<open>Facts about record extraction\<close>

lemma parseRecords_ids:
  "map id_r (parseRecords canon files cache) = map TFile.path (filter (\<lambda>f. cache f \<noteq> None) files)"
  by (induction files) (auto simp: parseRecord_def standardizeRecord_def Let_def split: option.splits)

lemma parseRecords_concat:
  "parseRecords canon files cache = concat (map (\<lambda>f. parseRecords canon [f] cache) files)"
  by (induction files) (auto split: option.splits)

lemma parseRecords_mem:
  "r \<in> set (parseRecords canon files cache) \<longleftrightarrow> (\<exists>file\<in>set files. \<exists>c. cache file = Some c \<and> r = parseRecord canon file c)"
  by (induction files) (auto split: option.splits)

lemma keys_standardize: "map fst (values (standardizeRecord canon i vals)) = map fst vals"
  by (induction vals) (auto simp: standardizeRecord_def)





lemma parseRecord_no_frontmatter:
  "frontmatter c = None \<Longrightarrow> parseRecord canon file c =
     \<lparr>id_r = TFile.path file,
      values = [(''path'', canon (VString (TFile.path file))), (''name'', canon (VString (basename file)))]\<rparr>"
  by (simp add: parseRecord_def Let_def standardizeRecord_def AList.delete_eq)

lemma parseRecord_keys:
  "fst ` set (values (parseRecord canon file c)) =
     {''path'', ''name''} \<union> fst ` {(k, v). (k, v) \<in> set (case frontmatter c of None \<Rightarrow> [] | Some fm \<Rightarrow> fm) \<and> k \<noteq> ''position'' \<and> notEmpty v}"
  unfolding parseRecord_def Let_def
  by (simp only: set_map[symmetric] keys_standardize) (auto simp: dom_update AList.delete_eq image_iff)

lemma parseRecord_no_position: "''position'' \<notin> fst ` set (values (parseRecord canon file c))"
  by (auto simp: parseRecord_keys)

lemma parseRecord_drops_empty:
  assumes "frontmatter c = Some fm" "wf_object fm" "map_of fm k = Some v" "\<not> notEmpty v"
    "k \<noteq> ''path''" "k \<noteq> ''name''"
  shows "k \<notin> fst ` set (values (parseRecord canon file c))"
proof
  assume "k \<in> fst ` set (values (parseRecord canon file c))"
  with assms(1,5,6) obtain v' where v': "(k, v') \<in> set fm" "notEmpty v'"
    by (auto simp: parseRecord_keys)
  from assms(2) v'(1) have "map_of fm k = Some v'"
    by (simp add: wf_object_def)
  with assms(3,4) v'(2) show False by simp
qed

lemma parseRecords_has_derived:
  assumes "r \<in> set (parseRecords canon files cache)"
  shows "''path'' \<in> fst ` set (values r) \<and> ''name'' \<in> fst ` set (values r)"
proof -
  from assms obtain doc c where "r = parseRecord canon doc c"
    by (auto simp: parseRecords_mem)
  then show ?thesis by (simp add: parseRecord_keys)
qed

section \<open>Facts about the fallback normalizer\<close>

lemma fallbackRecord_id: "id_r (fallbackRecord render f r) = id_r r"
  by (simp add: fallbackRecord_def split: option.splits dvalue.splits)

lemma fallbackRecord_keys:
  "fst ` set (values (fallbackRecord render f r)) = fst ` set (values r)"
proof (cases "map_of (values r) f")
  case None
  then show ?thesis by (simp add: fallbackRecord_def)
next
  case (Some v)
  then have "f \<in> fst ` set (values r)"
    by (metis domI dom_map_of_conv_image_fst)
  with Some show ?thesis
    by (cases v) (auto simp: fallbackRecord_def dom_update)
qed

lemma fallbackRecord_string:
  "map_of (values (fallbackRecord render f r)) f = Some v \<Longrightarrow> \<exists>s. v = VString s"
  by (auto simp: fallbackRecord_def update_conv' split: option.splits dvalue.splits)

lemma fallbackRecord_other:
  "k \<noteq> f \<Longrightarrow> map_of (values (fallbackRecord render f r)) k = map_of (values r) k"
  by (auto simp: fallbackRecord_def update_conv' split: option.splits dvalue.splits)

lemma fallbackRecord_plain:
  "map_of (values r) f = Some (VString s) \<Longrightarrow> fallbackRecord render f r = r"
  by (simp add: fallbackRecord_def)

lemma fallbackRecord_absent:
  "map_of (values r) f = None \<Longrightarrow> fallbackRecord render f r = r"
  by (simp add: fallbackRecord_def)

lemma fallbackRecord_idem:
  "fallbackRecord render f (fallbackRecord render f r) = fallbackRecord render f r"
proof (cases "map_of (values (fallbackRecord render f r)) f")
  case None
  then show ?thesis by (rule fallbackRecord_absent)
next
  case (Some v)
  then obtain s where "v = VString s" using fallbackRecord_string by blast
  with Some show ?thesis by (simp add: fallbackRecord_plain)
qed

lemma foldl_stringFallback:
  "foldl (stringFallback render) recs names =
     map (\<lambda>r. foldl (\<lambda>r f. fallbackRecord render f r) r names) recs"
  by (induction names arbitrary: recs) (simp_all add: stringFallback_def comp_def)

lemma foldl_fallback_id: "id_r (foldl (\<lambda>r f. fallbackRecord render f r) r names) = id_r r"
  by (induction names arbitrary: r) (simp_all add: fallbackRecord_id)

lemma foldl_fallback_keys:
  "fst ` set (values (foldl (\<lambda>r f. fallbackRecord render f r) r names)) = fst ` set (values r)"
  by (induction names arbitrary: r) (simp_all add: fallbackRecord_keys)

lemma plainAt_iff:
  "plainAt k r = (\<forall>v. map_of (values r) k = Some v \<longrightarrow> (\<exists>s. v = VString s))"
  by (simp add: plainAt_def split: option.splits dvalue.splits)

lemma fallbackRecord_plainAt_self: "plainAt f (fallbackRecord render f r)"
  by (simp add: plainAt_def fallbackRecord_def update_conv' split: option.splits dvalue.splits)

lemma fallbackRecord_plainAt_keep:
  assumes "plainAt k r"
  shows "plainAt k (fallbackRecord render f r)"
proof (cases "k = f")
  case True
  then show ?thesis by (simp add: fallbackRecord_plainAt_self)
next
  case False
  then have "map_of (values (fallbackRecord render f r)) k = map_of (values r) k"
    by (rule fallbackRecord_other)
  with assms show ?thesis by (simp add: plainAt_def)
qed

lemma foldl_fallback_plainAt:
  "k \<in> set names \<or> plainAt k r \<Longrightarrow> plainAt k (foldl (\<lambda>r f. fallbackRecord render f r) r names)"
proof (induction names arbitrary: r)
  case Nil
  then show ?case by simp
next
  case (Cons f names)
  from Cons.prems have "k = f \<or> k \<in> set names \<or> plainAt k r" by auto
  then have "k \<in> set names \<or> plainAt k (fallbackRecord render f r)"
    using fallbackRecord_plainAt_self[of k render r] fallbackRecord_plainAt_keep[of k r render f]
    by blast
  then have "plainAt k (foldl (\<lambda>r f. fallbackRecord render f r) (fallbackRecord render f r) names)"
    by (rule Cons.IH)
  then show ?case by simp
qed

section \<open>Facts about schema detection\<close>

lemma names_detectFields: "map name (detectFields classify recs) = observedKeys recs"
  by (simp add: detectFields_def detectField_def comp_def)

lemma distinct_observedKeys: "distinct (observedKeys recs)"
  by (simp add: observedKeys_def)

lemma set_observedKeys: "set (observedKeys recs) = (\<Union>r\<in>set recs. fst ` set (values r))"
  by (auto simp: observedKeys_def)

lemma filter_eq_distinct:
  "distinct xs \<Longrightarrow> filter (\<lambda>k. k = a) xs = (if a \<in> set xs then [a] else [])"
  by (induction xs) auto

lemma detectSchema_map:
  "detectSchema classify recs = map (\<lambda>k. schemaField (detectField classify recs k)) (observedKeys recs)"
  by (simp add: detectSchema_def detectFields_def schemaField_def Let_def comp_def)

lemma schemaField_identifier:
  "identifier (schemaField (detectField classify recs k)) = (k = ''path'')"
  by (simp add: schemaField_def detectField_def Let_def)

lemma schemaField_name: "name (schemaField (detectField classify recs k)) = k"
  by (simp add: schemaField_def detectField_def Let_def)

lemma schemaField_derived:
  "derived (schemaField (detectField classify recs k)) = (k = ''path'' \<or> k = ''name'')"
  by (auto simp add: schemaField_def detectField_def Let_def)

lemma schemaField_type:
  "type (schemaField (detectField classify recs k)) = consensus (map classify (observations recs k))"
  by (simp add: schemaField_def detectField_def Let_def)

lemma filter_identifier_detectSchema:
  "filter identifier (detectSchema classify recs) =
     (if ''path'' \<in> set (observedKeys recs)
      then [schemaField (detectField classify recs ''path'')] else [])"
  by (simp add: detectSchema_map filter_map comp_def schemaField_identifier
        filter_eq_distinct distinct_observedKeys)

lemma mset_observations:
  "mset (observations recs k) =
     image_mset (\<lambda>r. the (map_of (values r) k)) (filter_mset (\<lambda>r. map_of (values r) k \<noteq> None) (mset recs))"
  by (simp add: observations_def List.map_filter_def comp_def)

lemma consensus_mset: "mset ts = mset ts' \<Longrightarrow> consensus ts = consensus ts'"
proof -
  assume "mset ts = mset ts'"
  then have "count_list ts = count_list ts'"
    by (metis count_mset ext)
  then show ?thesis by (simp add: consensus_def)
qed

lemma detectField_perm:
  assumes "mset recs = mset recs'"
  shows "detectField classify recs k = detectField classify recs' k"
proof -
  have m: "mset (observations recs k) = mset (observations recs' k)"
    by (simp add: mset_observations assms)
  then have "set (observations recs k) = set (observations recs' k)"
    by (rule mset_eq_setD)
  moreover from m have "mset (map classify (observations recs k)) = mset (map classify (observations recs' k))"
    by simp
  then have "consensus (map classify (observations recs k)) = consensus (map classify (observations recs' k))"
    by (rule consensus_mset)
  ultimately show ?thesis
    by (simp add: detectField_def list_ex_iff)
qed

lemma observedKeys_perm:
  "mset recs = mset recs' \<Longrightarrow> set (observedKeys recs) = set (observedKeys recs')"
proof -
  assume "mset recs = mset recs'"
  then have "set recs = set recs'" by (rule mset_eq_setD)
  then show ?thesis by (simp add: set_observedKeys)
qed

lemma consensus_tie:
  assumes "a \<noteq> b" "a \<noteq> Unknown" "b \<noteq> Unknown"
    and "count_list ts a = n" "count_list ts b = n" "0 < n"
    and "\<And>t. t \<noteq> Unknown \<Longrightarrow> count_list ts t \<le> n"
  shows "consensus ts = String"
proof -
  have le: "count_list ts String \<le> n" "count_list ts Number \<le> n"
    "count_list ts Boolean \<le> n" "count_list ts Date \<le> n"
    using assms(7) by simp_all
  have best: "fold max (map (count_list ts) [String, Number, Boolean, Date]) 0 = n"
    using le assms(1-5) by (cases a; cases b) (simp_all add: max_def)
  show ?thesis
    unfolding consensus_def Let_def best
    using assms(1-6) by (cases a; cases b) (simp_all split: list.splits)
qed

lemma count_list_three:
  "a \<noteq> b \<Longrightarrow> a \<noteq> t \<Longrightarrow> b \<noteq> t \<Longrightarrow>
   count_list ts a + count_list ts b + count_list ts t \<le> length ts"
  by (induction ts) auto

lemma consensus_half_tie:
  assumes "a \<noteq> b" "a \<noteq> Unknown" "b \<noteq> Unknown" "0 < n"
    and "count_list ts a = n" "count_list ts b = n" "length ts = 2 * n"
  shows "consensus ts = String"
proof (rule consensus_tie[OF assms(1-3) assms(5,6) assms(4)])
  fix t :: DataFieldType
  show "count_list ts t \<le> n"
  proof (cases "t = a \<or> t = b")
    case True
    with assms(5,6) show ?thesis by auto
  next
    case False
    then have "count_list ts a + count_list ts b + count_list ts t \<le> length ts"
      using assms(1) by (intro count_list_three) auto
    with assms(5-7) show ?thesis by simp
  qed
qed

lemma detectSchema_derived:
  assumes "g \<in> set (detectSchema classify recs)" "name g = ''path'' \<or> name g = ''name''"
  shows "derived g"
proof -
  from assms(1) obtain k where "g = schemaField (detectField classify recs k)"
    by (auto simp: detectSchema_map)
  with assms(2) show ?thesis
    by (simp add: schemaField_name schemaField_derived)
qed

lemma detectSchema_one_identifier:
  assumes "\<exists>r\<in>set recs. ''path'' \<in> fst ` set (values r)"
  shows "\<exists>f. filter identifier (detectSchema classify recs) = [f] \<and> name f = ''path''"
proof -
  from assms have "''path'' \<in> set (observedKeys recs)"
    by (simp add: set_observedKeys)
  then have "filter identifier (detectSchema classify recs) =
      [schemaField (detectField classify recs ''path'')]"
    by (simp add: filter_identifier_detectSchema)
  then show ?thesis by (simp add: schemaField_name)
qed

section \<open>Facts about the queries\<close>

lemma fields_queryFiles:
  "fields_df (queryFiles canon classify render this files) =
     detectSchema classify (parseRecords canon files (metadataCache (app this)))"
  by (simp add: queryFiles_def Let_def)

lemma records_queryFiles:
  "records (queryFiles canon classify render this files) =
     map (\<lambda>r. foldl (\<lambda>r f. fallbackRecord render f r) r
            (map name (filter (\<lambda>field. type field = String)
               (detectSchema classify (parseRecords canon files (metadataCache (app this)))))))
       (parseRecords canon files (metadataCache (app this)))"
  by (simp add: queryFiles_def Let_def foldl_stringFallback)

lemma ids_queryFiles:
  "map id_r (records (queryFiles canon classify render this files)) =
     map TFile.path (filter (\<lambda>file. metadataCache (app this) file \<noteq> None) files)"
  by (simp add: records_queryFiles comp_def foldl_fallback_id parseRecords_ids)

section \<open>The source selector on the documented boundary cases\<close>

text \<open>
  Claim C2. For the collection root \<open>Projects\<close>: without recursion the selector
  includes \<open>Projects/a.md\<close> and excludes \<open>Projects/Sub/b.md\<close> and \<open>Other/a.md\<close>; with
  recursion it includes \<open>Projects/a.md\<close> and \<open>Projects/Sub/b.md\<close> and excludes
  \<open>Other/a.md\<close>.
\<close>

theorem includes_selector_boundary:
  "includes_p projectsFlat ''Projects/a.md'' = True
   \<and> includes_p projectsFlat ''Projects/Sub/b.md'' = False
   \<and> includes_p projectsFlat ''Other/a.md'' = False
   \<and> includes_p projectsDeep ''Projects/a.md'' = True
   \<and> includes_p projectsDeep ''Projects/Sub/b.md'' = True
   \<and> includes_p projectsDeep ''Other/a.md'' = False"
  by (simp add: includes_p_def startsWith_def projectsFlat_def projectsDeep_def)

text \<open>
  Claim C6. The prefix test is textual, not aware of path segments. With recursion the
  selector includes exactly the paths that start with the characters of the root, so
  the root followed by any characters is included; without recursion it also requires
  the containing directory to equal the root. For the root \<open>Note\<close> and the path
  \<open>Notes/x.md\<close>: included with recursion, rejected by the directory comparison
  without.
\<close>

theorem includes_textual_prefix:
  "(recursive (project this) \<longrightarrow> includes_p this p = startsWith p (trimmedPath this))
   \<and> (recursive (project this) \<longrightarrow> includes_p this (trimmedPath this @ s) = True)
   \<and> (\<not> recursive (project this) \<longrightarrow>
        includes_p this p =
          (startsWith p (trimmedPath this)
           \<and> join ''/'' (butlast (split CHR ''/'' p)) =
               join ''/'' (filter (\<lambda>el. el \<noteq> []) (split CHR ''/'' (trimmedPath this)))))
   \<and> includes_p noteDeep ''Notes/x.md'' = True
   \<and> includes_p noteFlat ''Notes/x.md'' = False"
proof -
  have "includes_p noteDeep ''Notes/x.md'' = True \<and> includes_p noteFlat ''Notes/x.md'' = False"
    by (simp add: includes_p_def startsWith_def noteFlat_def noteDeep_def)
  then show ?thesis
    using includes_p_recursive[of this p] includes_p_recursive[of this "trimmedPath this @ s"]
      includes_p_flat[of this p] startsWith_append[of "trimmedPath this" s]
    by simp
qed

text \<open>
  The theorem at the root \<open>Note\<close>: with recursion \<open>Notes/x.md\<close> is included and
  \<open>Elsewhere/y.md\<close>, which does not start with the root, is not; without recursion
  the containing directory of \<open>Notes/x.md\<close> is \<open>Notes\<close>, not the root.
\<close>

theorem includes_textual_prefix_witness:
  "recursive (project noteDeep) = True
   \<and> trimmedPath noteDeep = ''Note''
   \<and> includes_p noteDeep (''Note'' @ ''s/x.md'') = True
   \<and> includes_p noteDeep ''Elsewhere/y.md'' = startsWith ''Elsewhere/y.md'' ''Note''
   \<and> includes_p noteDeep ''Elsewhere/y.md'' = False
   \<and> recursive (project noteFlat) = False
   \<and> join ''/'' (butlast (split CHR ''/'' ''Notes/x.md'')) = ''Notes''
   \<and> includes_p noteFlat ''Notes/x.md'' = False"
proof -
  have r: "recursive (project noteDeep) = True" "recursive (project noteFlat) = False"
    by (simp_all add: noteDeep_def noteFlat_def)
  have t: "trimmedPath noteDeep = ''Note''" "trimmedPath noteFlat = ''Note''"
    by (simp_all add: trimmedPath_def noteDeep_def noteFlat_def startsWith_def)
  from includes_textual_prefix[of noteDeep "''Elsewhere/y.md''" "''s/x.md''"] r t
  have d: "includes_p noteDeep ''Elsewhere/y.md'' = startsWith ''Elsewhere/y.md'' ''Note''"
    "includes_p noteDeep (''Note'' @ ''s/x.md'') = True"
    by simp_all
  from includes_textual_prefix[of noteFlat "''Notes/x.md''" "[]"]
  have f: "includes_p noteFlat ''Notes/x.md'' = False"
    by blast
  have j: "join ''/'' (butlast (split CHR ''/'' ''Notes/x.md'')) = ''Notes''"
    by simp
  have s: "startsWith ''Elsewhere/y.md'' ''Note'' = False"
    by (simp add: startsWith_def)
  from r t d f j s show ?thesis by (simp only: simp_thms)
qed

section \<open>Identifier and derived fields\<close>

text \<open>
  Claim C1. In every detected field list, every field named \<open>path\<close> or \<open>name\<close>
  has derived = true. For every non-empty list of records, each holding its \<open>path\<close>
  and \<open>name\<close> values as a record does, the field list contains exactly one field with
  identifier = true, and that field is named \<open>path\<close>. In particular this holds for
  every non-empty list that \<open>parseRecords\<close> builds, which is what schema detection
  is given.
\<close>

theorem detectSchema_identifier:
  "(\<forall>g\<in>set (detectSchema classify recs). name g = ''path'' \<or> name g = ''name'' \<longrightarrow> derived g)
   \<and> (recs \<noteq> [] \<and> (\<forall>r\<in>set recs. ''path'' \<in> fst ` set (values r) \<and> ''name'' \<in> fst ` set (values r))
        \<longrightarrow> (\<exists>f. filter identifier (detectSchema classify recs) = [f] \<and> name f = ''path''))
   \<and> (parseRecords canon files cache \<noteq> []
        \<longrightarrow> (\<exists>f. filter identifier (detectSchema classify (parseRecords canon files cache)) = [f]
               \<and> name f = ''path''))"
proof -
  have a: "\<forall>g\<in>set (detectSchema classify recs). name g = ''path'' \<or> name g = ''name'' \<longrightarrow> derived g"
    using detectSchema_derived by blast
  have b: "\<exists>f. filter identifier (detectSchema classify rs) = [f] \<and> name f = ''path''"
    if "rs \<noteq> []" "\<forall>r\<in>set rs. ''path'' \<in> fst ` set (values r) \<and> ''name'' \<in> fst ` set (values r)" for rs
  proof -
    from that(1) obtain r where "r \<in> set rs" by (cases rs) auto
    with that(2) have "\<exists>r\<in>set rs. ''path'' \<in> fst ` set (values r)" by blast
    then show ?thesis by (rule detectSchema_one_identifier)
  qed
  have c: "\<forall>r\<in>set (parseRecords canon files cache).
      ''path'' \<in> fst ` set (values r) \<and> ''name'' \<in> fst ` set (values r)"
    using parseRecords_has_derived by blast
  from a b[of recs] b[OF _ c] show ?thesis by blast
qed

text \<open>
  The theorem at the records of the two sample documents, with the schema evaluated.
\<close>

theorem detectSchema_identifier_witness:
  "parseRecords canonNone [fileA, fileB] sampleCache = [recordA, recordB]
   \<and> (\<exists>f. filter identifier (detectSchema classifyTag [recordA, recordB]) = [f] \<and> name f = ''path'')
   \<and> detectSchema classifyTag [recordA, recordB] =
     [\<lparr>name = ''status'', type = String, repeated = False, identifier = False, derived = False\<rparr>,
      \<lparr>name = ''cost'', type = Number, repeated = False, identifier = False, derived = False\<rparr>,
      \<lparr>name = ''path'', type = String, repeated = False, identifier = True, derived = True\<rparr>,
      \<lparr>name = ''name'', type = String, repeated = False, identifier = False, derived = True\<rparr>]"
proof -
  have p: "parseRecords canonNone [fileA, fileB] sampleCache = [recordA, recordB]"
    by (simp add: sample_defs parseRecord_def standardizeRecord_def AList.delete_eq)
  have e: "detectSchema classifyTag [recordA, recordB] =
     [\<lparr>name = ''status'', type = String, repeated = False, identifier = False, derived = False\<rparr>,
      \<lparr>name = ''cost'', type = Number, repeated = False, identifier = False, derived = False\<rparr>,
      \<lparr>name = ''path'', type = String, repeated = False, identifier = True, derived = True\<rparr>,
      \<lparr>name = ''name'', type = String, repeated = False, identifier = False, derived = True\<rparr>]"
    by (simp add: recordA_def recordB_def detectSchema_def detectFields_def detectField_def
        observedKeys_def observations_def consensus_def List.map_filter_def)
  from detectSchema_identifier[of classifyTag "[recordA, recordB]" canonNone "[fileA, fileB]" sampleCache]
  have "\<exists>f. filter identifier (detectSchema classifyTag [recordA, recordB]) = [f] \<and> name f = ''path''"
    unfolding p by blast
  with p e show ?thesis by blast
qed

section \<open>Every cached document yields one record\<close>

text \<open>
  Claim C3 as stated, every document passed to \<open>parseRecords\<close> contributes one
  record, fails for a document whose cache lookup returns null: the loop skips it.
\<close>

theorem parseRecords_uncached_counterexample:
  "sampleCache fileC = None \<and> parseRecords canonNone [fileC] sampleCache = []"
  by (simp add: sample_defs)

text \<open>
  Claim C3, amended. Record extraction is total, and its output is the concatenation,
  in order, of what each document contributes. A document whose cache lookup returns
  null contributes nothing; a document with a cache entry contributes exactly one
  record; when the cache entry has no front matter, the front matter counts as the
  empty map and the record holds exactly the two values \<open>path\<close> and \<open>name\<close>.
\<close>

theorem parseRecords_per_document:
  "parseRecords canon files cache = concat (map (\<lambda>file. parseRecords canon [file] cache) files)
   \<and> length (parseRecords canon files cache) = length (filter (\<lambda>file. cache file \<noteq> None) files)
   \<and> (cache file = None \<longrightarrow> parseRecords canon [file] cache = [])
   \<and> (\<forall>c. cache file = Some c \<longrightarrow> (\<exists>r. parseRecords canon [file] cache = [r]))
   \<and> (\<forall>c. cache file = Some c \<and> frontmatter c = None \<longrightarrow>
        parseRecords canon [file] cache =
          [\<lparr>id_r = TFile.path file,
            values = [(''path'', canon (VString (TFile.path file))),
                      (''name'', canon (VString (basename file)))]\<rparr>])"
proof -
  have "parseRecords canon files cache = concat (map (\<lambda>file. parseRecords canon [file] cache) files)"
    by (rule parseRecords_concat)
  moreover have "length (parseRecords canon files cache) = length (filter (\<lambda>file. cache file \<noteq> None) files)"
    using parseRecords_ids[of canon files cache] by (metis length_map)
  moreover have "\<forall>c. cache file = Some c \<and> frontmatter c = None \<longrightarrow>
        parseRecords canon [file] cache =
          [\<lparr>id_r = TFile.path file,
            values = [(''path'', canon (VString (TFile.path file))),
                      (''name'', canon (VString (basename file)))]\<rparr>]"
    by (simp add: parseRecord_no_frontmatter)
  ultimately show ?thesis by simp
qed

text \<open>
  The theorem at the sample cache: \<open>fileD\<close> has a cache entry without front matter,
  and of the three documents \<open>fileA\<close>, \<open>fileC\<close>, \<open>fileD\<close> two have a cache entry.
\<close>

theorem parseRecords_per_document_witness:
  "sampleCache fileD = Some metaD \<and> frontmatter metaD = None
   \<and> parseRecords canonNone [fileD] sampleCache =
        [\<lparr>id_r = ''Projects/d.md'',
          values = [(''path'', VString ''Projects/d.md''), (''name'', VString ''d'')]\<rparr>]
   \<and> length (parseRecords canonNone [fileA, fileC, fileD] sampleCache) = 2"
  using parseRecords_per_document[of canonNone "[fileA, fileC, fileD]" sampleCache fileD]
  by (simp add: sample_defs)

section \<open>Derived values win over user keys\<close>




section \<open>Empty values and the bookkeeping key are dropped\<close>

text \<open>
  Claim C8 as stated, for every metadata key whose value is empty, fails for the keys
  \<open>path\<close> and \<open>name\<close>: the front matter of \<open>fileA\<close> has a null \<open>name\<close>, and the
  record holds the document's display name under \<open>name\<close>.
\<close>

theorem parseRecords_empty_name_counterexample:
  "sampleCache fileA = Some metaA
   \<and> map_of (the (frontmatter metaA)) ''name'' = Some VNull
   \<and> notEmpty VNull = False
   \<and> parseRecords canonNone [fileA] sampleCache = [recordA]
   \<and> map_of (values recordA) ''name'' = Some (VString ''a'')"
  by (simp add: sample_defs parseRecord_def standardizeRecord_def AList.delete_eq)

text \<open>
  Claim C8, amended. No extracted record contains the key \<open>position\<close>. For every
  document with front matter and every metadata key other than \<open>path\<close> and \<open>name\<close>
  whose value is empty (null, undefined, the empty string, the empty list), the
  extracted record does not contain that key.
\<close>

theorem parseRecords_filters_empty:
  "(\<forall>r\<in>set (parseRecords canon files cache). ''position'' \<notin> fst ` set (values r))
   \<and> (\<forall>c fm. cache file = Some c \<and> frontmatter c = Some fm \<and> wf_object fm \<longrightarrow>
        (\<exists>r. parseRecords canon [file] cache = [r]
           \<and> (\<forall>k v. map_of fm k = Some v \<and> \<not> notEmpty v \<and> k \<noteq> ''path'' \<and> k \<noteq> ''name''
                 \<longrightarrow> k \<notin> fst ` set (values r))))"
proof -
  have "''position'' \<notin> fst ` set (values r)" if "r \<in> set (parseRecords canon files cache)" for r
  proof -
    from that obtain doc c where "r = parseRecord canon doc c"
      by (auto simp: parseRecords_mem)
    then show ?thesis by (simp only: parseRecord_no_position not_False_eq_True)
  qed
  then have "\<forall>r\<in>set (parseRecords canon files cache). ''position'' \<notin> fst ` set (values r)"
    by blast
  moreover have "\<exists>r. parseRecords canon [file] cache = [r]
           \<and> (\<forall>k v. map_of fm k = Some v \<and> \<not> notEmpty v \<and> k \<noteq> ''path'' \<and> k \<noteq> ''name''
                 \<longrightarrow> k \<notin> fst ` set (values r))"
    if "cache file = Some c" "frontmatter c = Some fm" "wf_object fm" for c fm
  proof -
    from that(1) have "parseRecords canon [file] cache = [parseRecord canon file c]"
      by simp
    moreover have "\<forall>k v. map_of fm k = Some v \<and> \<not> notEmpty v \<and> k \<noteq> ''path'' \<and> k \<noteq> ''name''
                 \<longrightarrow> k \<notin> fst ` set (values (parseRecord canon file c))"
      using parseRecord_drops_empty[OF that(2,3)] by blast
    ultimately show ?thesis by blast
  qed
  ultimately show ?thesis by blast
qed

text \<open>
  The theorem at \<open>fileA\<close>: the key \<open>note\<close> holds the empty string and is not in
  the record, and neither is \<open>position\<close>.
\<close>

theorem parseRecords_filters_empty_witness:
  "sampleCache fileA = Some metaA
   \<and> wf_object (the (frontmatter metaA))
   \<and> map_of (the (frontmatter metaA)) ''note'' = Some (VString [])
   \<and> notEmpty (VString []) = False
   \<and> parseRecords canonNone [fileA] sampleCache = [recordA]
   \<and> ''note'' \<notin> fst ` set (values recordA)
   \<and> ''position'' \<notin> fst ` set (values recordA)"
  using parseRecords_filters_empty[of canonNone "[fileA]" sampleCache fileA]
  by (simp add: sample_defs wf_object_def parseRecord_def standardizeRecord_def AList.delete_eq)

section \<open>The fallback normalizer is idempotent\<close>

text \<open>
  Claim C9. For every list of records and every field name, applying
  \<open>stringFallback\<close> to the output of a first application changes nothing.
\<close>

theorem stringFallback_idempotent:
  "stringFallback render (stringFallback render recs field) field = stringFallback render recs field"
  by (simp add: stringFallback_def fallbackRecord_idem)

text \<open>
  The theorem at the two sample records and the field \<open>status\<close>: the first
  application renders the boolean of \<open>recordB\<close>, the second changes nothing.
\<close>

theorem stringFallback_idempotent_witness:
  "stringFallback renderTag [recordA, recordB] ''status'' =
     [recordA,
      \<lparr>id_r = ''Projects/Sub/b.md'',
       values = [(''status'', VString ''true''), (''path'', VString ''Projects/Sub/b.md''),
                 (''name'', VString ''b'')]\<rparr>]
   \<and> stringFallback renderTag (stringFallback renderTag [recordA, recordB] ''status'') ''status'' =
     [recordA,
      \<lparr>id_r = ''Projects/Sub/b.md'',
       values = [(''status'', VString ''true''), (''path'', VString ''Projects/Sub/b.md''),
                 (''name'', VString ''b'')]\<rparr>]"
proof -
  have e: "stringFallback renderTag [recordA, recordB] ''status'' =
     [recordA,
      \<lparr>id_r = ''Projects/Sub/b.md'',
       values = [(''status'', VString ''true''), (''path'', VString ''Projects/Sub/b.md''),
                 (''name'', VString ''b'')]\<rparr>]"
    by (simp add: stringFallback_def fallbackRecord_def recordA_def recordB_def)
  from stringFallback_idempotent[of renderTag "[recordA, recordB]" "''status''"] e
  show ?thesis by simp
qed

section \<open>String fields hold strings after a query\<close>

text \<open>
  Claim C4. In the data frame of \<open>queryFiles\<close>, for every field whose detected type
  is String and every record, the record's value under that field name, if present, is
  a plain string; and every record has the same keys as before the normalization, so
  no value is added where none was.
\<close>

theorem queryFiles_string_fields_plain:
  "(\<forall>f\<in>set (fields_df (queryFiles canon classify render this files)). type f = String \<longrightarrow>
      (\<forall>r\<in>set (records (queryFiles canon classify render this files)).
         \<forall>v. map_of (values r) (name f) = Some v \<longrightarrow> (\<exists>s. v = VString s)))
   \<and> map (\<lambda>r. fst ` set (values r)) (records (queryFiles canon classify render this files)) =
       map (\<lambda>r. fst ` set (values r)) (parseRecords canon files (metadataCache (app this)))"
proof -
  let ?recs = "parseRecords canon files (metadataCache (app this))"
  let ?flds = "detectSchema classify ?recs"
  let ?names = "map name (filter (\<lambda>field. type field = String) ?flds)"
  have "\<exists>s. v = VString s"
    if f: "f \<in> set (fields_df (queryFiles canon classify render this files))" "type f = String"
      and r: "r \<in> set (records (queryFiles canon classify render this files))"
      and v: "map_of (values r) (name f) = Some v" for f r v
  proof -
    from f have "name f \<in> set ?names"
      by (simp add: fields_queryFiles)
    moreover from r obtain r0 where "r = foldl (\<lambda>r f. fallbackRecord render f r) r0 ?names"
      by (auto simp: records_queryFiles)
    ultimately have "plainAt (name f) r"
      by (simp add: foldl_fallback_plainAt)
    with v show ?thesis by (simp add: plainAt_iff)
  qed
  moreover have "map (\<lambda>r. fst ` set (values r)) (records (queryFiles canon classify render this files)) =
       map (\<lambda>r. fst ` set (values r)) ?recs"
    by (simp add: records_queryFiles comp_def foldl_fallback_keys)
  ultimately show ?thesis by blast
qed

text \<open>
  The theorem at the two sample documents: \<open>status\<close> is a string in one and a
  boolean in the other, the tie gives String, and the boolean is rendered.
\<close>

theorem queryFiles_string_fields_plain_witness:
  "fields_df (queryFiles canonNone classifyTag renderTag sampleSource [fileA, fileB]) =
     [\<lparr>name = ''status'', type = String, repeated = False, identifier = False, derived = False\<rparr>,
      \<lparr>name = ''cost'', type = Number, repeated = False, identifier = False, derived = False\<rparr>,
      \<lparr>name = ''path'', type = String, repeated = False, identifier = True, derived = True\<rparr>,
      \<lparr>name = ''name'', type = String, repeated = False, identifier = False, derived = True\<rparr>]
   \<and> records (queryFiles canonNone classifyTag renderTag sampleSource [fileA, fileB]) =
     [recordA,
      \<lparr>id_r = ''Projects/Sub/b.md'',
       values = [(''status'', VString ''true''), (''path'', VString ''Projects/Sub/b.md''),
                 (''name'', VString ''b'')]\<rparr>]
   \<and> map (\<lambda>r. fst ` set (values r))
        (records (queryFiles canonNone classifyTag renderTag sampleSource [fileA, fileB])) =
       map (\<lambda>r. fst ` set (values r)) [recordA, recordB]"
proof -
  have p: "parseRecords canonNone [fileA, fileB] (metadataCache (app sampleSource)) = [recordA, recordB]"
    by (simp add: sample_defs parseRecord_def standardizeRecord_def AList.delete_eq)
  have d: "detectSchema classifyTag [recordA, recordB] =
     [\<lparr>name = ''status'', type = String, repeated = False, identifier = False, derived = False\<rparr>,
      \<lparr>name = ''cost'', type = Number, repeated = False, identifier = False, derived = False\<rparr>,
      \<lparr>name = ''path'', type = String, repeated = False, identifier = True, derived = True\<rparr>,
      \<lparr>name = ''name'', type = String, repeated = False, identifier = False, derived = True\<rparr>]"
    by (simp add: recordA_def recordB_def detectSchema_def detectFields_def detectField_def
        observedKeys_def observations_def consensus_def List.map_filter_def)
  have r: "records (queryFiles canonNone classifyTag renderTag sampleSource [fileA, fileB]) =
     [recordA,
      \<lparr>id_r = ''Projects/Sub/b.md'',
       values = [(''status'', VString ''true''), (''path'', VString ''Projects/Sub/b.md''),
                 (''name'', VString ''b'')]\<rparr>]"
    unfolding queryFiles_def Let_def p d
    by (simp add: stringFallback_def fallbackRecord_def recordA_def recordB_def)
  have f: "fields_df (queryFiles canonNone classifyTag renderTag sampleSource [fileA, fileB]) =
     [\<lparr>name = ''status'', type = String, repeated = False, identifier = False, derived = False\<rparr>,
      \<lparr>name = ''cost'', type = Number, repeated = False, identifier = False, derived = False\<rparr>,
      \<lparr>name = ''path'', type = String, repeated = False, identifier = True, derived = True\<rparr>,
      \<lparr>name = ''name'', type = String, repeated = False, identifier = False, derived = True\<rparr>]"
    unfolding fields_queryFiles p by (rule d)
  have k: "map (\<lambda>r. fst ` set (values r))
        (records (queryFiles canonNone classifyTag renderTag sampleSource [fileA, fileB])) =
       map (\<lambda>r. fst ` set (values r)) [recordA, recordB]"
    using queryFiles_string_fields_plain[of canonNone classifyTag renderTag sampleSource "[fileA, fileB]"]
    unfolding p by (rule conjunct2)
  from f r k show ?thesis by blast
qed

section \<open>Schema detection does not depend on the order of the records\<close>

text \<open>
  Claim C5. For every list of records and every permutation of it, schema detection
  yields the same set of fields (name, type and the three flags); and where two types
  other than Unknown are observed for a key in an exact tie, each on half of the
  observations, the consensus type is String.
\<close>

theorem detectSchema_order_independent:
  assumes "mset recs = mset recs'"
  shows "set (detectSchema classify recs) = set (detectSchema classify recs')
     \<and> (\<forall>f\<in>set (detectSchema classify recs). \<forall>a b n.
          a \<noteq> b \<and> a \<noteq> Unknown \<and> b \<noteq> Unknown \<and> 0 < n
          \<and> count_list (map classify (observations recs (name f))) a = n
          \<and> count_list (map classify (observations recs (name f))) b = n
          \<and> length (observations recs (name f)) = 2 * n
          \<longrightarrow> type f = String)"
proof -
  have "(\<lambda>k. schemaField (detectField classify recs k)) = (\<lambda>k. schemaField (detectField classify recs' k))"
    using detectField_perm[OF assms] by simp
  then have eq: "set (detectSchema classify recs) = set (detectSchema classify recs')"
    by (simp add: detectSchema_map observedKeys_perm[OF assms])
  have "type f = String"
    if f: "f \<in> set (detectSchema classify recs)"
      and t: "a \<noteq> b" "a \<noteq> Unknown" "b \<noteq> Unknown" "0 < n"
        "count_list (map classify (observations recs (name f))) a = n"
        "count_list (map classify (observations recs (name f))) b = n"
        "length (observations recs (name f)) = 2 * n" for f a b n
  proof -
    from f obtain k where k: "f = schemaField (detectField classify recs k)"
      by (auto simp: detectSchema_map)
    then have n: "name f = k" by (simp add: schemaField_name)
    have "consensus (map classify (observations recs k)) = String"
      using t unfolding n by (intro consensus_half_tie[of a b n]) simp_all
    with k show ?thesis by (simp add: schemaField_type)
  qed
  with eq show ?thesis by blast
qed

text \<open>
  The theorem at the two sample records in both orders: the fields come in another
  order and are the same set; \<open>status\<close> is observed once as String and once as
  Boolean.
\<close>

theorem detectSchema_order_independent_witness:
  "mset [recordA, recordB] = mset [recordB, recordA]
   \<and> set (detectSchema classifyTag [recordA, recordB]) = set (detectSchema classifyTag [recordB, recordA])
   \<and> detectSchema classifyTag [recordB, recordA] =
     [\<lparr>name = ''status'', type = String, repeated = False, identifier = False, derived = False\<rparr>,
      \<lparr>name = ''path'', type = String, repeated = False, identifier = True, derived = True\<rparr>,
      \<lparr>name = ''name'', type = String, repeated = False, identifier = False, derived = True\<rparr>,
      \<lparr>name = ''cost'', type = Number, repeated = False, identifier = False, derived = False\<rparr>]
   \<and> map classifyTag (observations [recordA, recordB] ''status'') = [String, Boolean]"
proof -
  have m: "mset [recordA, recordB] = mset [recordB, recordA]"
    by (simp add: add_mset_commute)
  have d: "detectSchema classifyTag [recordB, recordA] =
     [\<lparr>name = ''status'', type = String, repeated = False, identifier = False, derived = False\<rparr>,
      \<lparr>name = ''path'', type = String, repeated = False, identifier = True, derived = True\<rparr>,
      \<lparr>name = ''name'', type = String, repeated = False, identifier = False, derived = True\<rparr>,
      \<lparr>name = ''cost'', type = Number, repeated = False, identifier = False, derived = False\<rparr>]"
    by (simp add: recordA_def recordB_def detectSchema_def detectFields_def detectField_def
        observedKeys_def observations_def consensus_def List.map_filter_def)
  have ob: "map classifyTag (observations [recordA, recordB] ''status'') = [String, Boolean]"
    by (simp add: recordA_def recordB_def observations_def List.map_filter_def)
  from detectSchema_order_independent[OF m, of classifyTag] m d ob show ?thesis
    by blast
qed

section \<open>What queryAll returns\<close>

text \<open>
  Claim C10 as stated, a record for every Markdown document whose path the selector
  includes, fails for a document without a cache entry: \<open>fileC\<close> is in the listing
  and is included, and the data frame has no record for it.
\<close>

theorem queryAll_uncached_counterexample:
  "fileC \<in> set (getMarkdownFiles (app sampleSource))
   \<and> includes_p sampleSource (TFile.path fileC) = True
   \<and> map id_r (records (queryAll canonNone classifyTag renderTag sampleSource)) =
       [''Projects/a.md'', ''Projects/Sub/b.md'', ''Projects/d.md'']"
proof -
  have i: "filter (\<lambda>file. includes_p sampleSource (TFile.path file)) [fileA, fileB, fileC, fileD]
      = [fileA, fileB, fileC, fileD]"
    by (simp add: sample_defs includes_p_def startsWith_def)
  have "map id_r (records (queryAll canonNone classifyTag renderTag sampleSource)) =
       map TFile.path (filter (\<lambda>file. sampleCache file \<noteq> None) [fileA, fileB, fileC, fileD])"
    unfolding queryAll_def Let_def ids_queryFiles
    using i by (simp add: sampleSource_def)
  also have "\<dots> = [''Projects/a.md'', ''Projects/Sub/b.md'', ''Projects/d.md'']"
    by (simp add: sample_defs)
  finally show ?thesis
    by (simp add: sample_defs includes_p_def startsWith_def)
qed

text \<open>
  Claim C10, amended. \<open>queryAll\<close> is \<open>queryFiles\<close> on the Markdown files whose
  path the selector includes, and \<open>queryOne\<close> is \<open>queryFiles\<close> on the singleton
  list. The records of \<open>queryAll\<close> are, in order, those of the documents that are
  in the host's Markdown listing, whose path satisfies the selector and for which the
  metadata cache has an entry; a document outside the listing has no record.
\<close>

theorem queryAll_selects_cached_markdown:
  "queryAll canon classify render this =
     queryFiles canon classify render this
       (filter (\<lambda>file. includes_p this (TFile.path file)) (getMarkdownFiles (app this)))
   \<and> queryOne canon classify render this file = queryFiles canon classify render this [file]
   \<and> map id_r (records (queryAll canon classify render this)) =
       map TFile.path
         (filter (\<lambda>file. includes_p this (TFile.path file) \<and> metadataCache (app this) file \<noteq> None)
            (getMarkdownFiles (app this)))"
  by (simp add: queryAll_def queryOne_def Let_def ids_queryFiles)

text \<open>
  The theorem at the sample vault: \<open>queryOne\<close> on the document without a cache entry
  gives the empty data frame, and \<open>queryAll\<close> gives the records of the three cached
  documents.
\<close>

theorem queryAll_selects_cached_markdown_witness:
  "queryOne canonNone classifyTag renderTag sampleSource fileC = \<lparr>fields_df = [], records = []\<rparr>
   \<and> map id_r (records (queryAll canonNone classifyTag renderTag sampleSource)) =
       map TFile.path [fileA, fileB, fileD]"
proof -
  have q: "queryFiles canonNone classifyTag renderTag sampleSource [fileC] = \<lparr>fields_df = [], records = []\<rparr>"
    by (simp add: queryFiles_def sample_defs detectSchema_def detectFields_def observedKeys_def)
  have f: "filter (\<lambda>file. includes_p sampleSource (TFile.path file) \<and> metadataCache (app sampleSource) file \<noteq> None)
      (getMarkdownFiles (app sampleSource)) = [fileA, fileB, fileD]"
    by (simp add: sample_defs includes_p_def startsWith_def)
  note t = queryAll_selects_cached_markdown[of canonNone classifyTag renderTag sampleSource fileC]
  from t have a: "queryOne canonNone classifyTag renderTag sampleSource fileC =
      queryFiles canonNone classifyTag renderTag sampleSource [fileC]"
    by blast
  from t have b: "map id_r (records (queryAll canonNone classifyTag renderTag sampleSource)) =
      map TFile.path
        (filter (\<lambda>file. includes_p sampleSource (TFile.path file) \<and> metadataCache (app sampleSource) file \<noteq> None)
           (getMarkdownFiles (app sampleSource)))"
    by blast
  show ?thesis by (simp only: a q b f simp_thms)
qed

end
